theory Spec2Isabelle
  imports Complex_Main
begin

section \<open>Fluid-Sim: the per-step update of \<open>fluid_sim.py\<close>\<close>

text \<open>
  The embedding follows \<open>src/fluid_sim.py\<close> function by function. Python numbers
  (ints and floats mixed) are idealised as \<^typ>\<open>real\<close>: rounding, overflow and
  underflow of IEEE doubles are outside this model, and a statement about it is a
  statement of real arithmetic about the formulas the code evaluates. Where rounding
  decides a claim (can the pressure be zero?) the functions involved are modelled a
  second time with the rounding of doubles, under names ending in \<open>_double\<close>. What the
  interpreter raises is kept: a division whose divisor is zero is
  \<open>ZeroDivisionError\<close>, a list read past its end is \<open>IndexError\<close>, and the
  comparison of a float with the complex number that \<open>m ** (1 / 3)\<close> yields for a
  negative \<open>m\<close> is \<open>TypeError\<close>.

  The module-level constants of the source (lines 6 to 15) are the fields of a
  record that every function takes as its first argument, so that one model covers
  every configuration; \<open>source_config\<close> holds the values the file is shipped with.
  A two-element Python list \<open>[x, y]\<close> is a pair.
\<close>

subsection \<open>Data\<close>

datatype py_error = ZeroDivisionError | IndexError | TypeError

type_synonym vec = "real \<times> real"

record config =
  num_particles :: nat
  gravity :: real
  particle_size :: real
  smoothing_radius :: real
  pressure_force_mult :: real
  target_pressure :: real
  wall_mult :: real
  width :: real
  height :: real

definition source_config :: config where
  "source_config =
     \<lparr>num_particles = 70, gravity = 1 / 100, particle_size = 5,
      smoothing_radius = 30, pressure_force_mult = 1 / 10,
      target_pressure = 1 / 10, wall_mult = 7 / 10, width = 400, height = 400\<rparr>"

subsection \<open>Smoothing kernel (lines 18 to 32)\<close>

text \<open>
  \<open>smoothing_function\<close>: \<open>max((0, (R - distance) / R)) ** 3\<close>, then \<open>*= 2 / R\<close>.
  Both divisions are by the radius.
\<close>

definition smoothing_function :: "config \<Rightarrow> real \<Rightarrow> py_error + real" where
  "smoothing_function cfg distance =
     (if smoothing_radius cfg = 0 then Inl ZeroDivisionError
      else
        (let value1 = max 0 ((smoothing_radius cfg - distance) / smoothing_radius cfg);
             value2 = value1 ^ 3
         in Inr (value2 * (2 / smoothing_radius cfg))))"

text \<open>
  \<open>smoothing_derivative\<close>: \<open>-6 * (R - distance) ** 2\<close>, then \<open>/= R ** 4\<close>.
  There is no \<open>max\<close> here.
\<close>

definition smoothing_derivative :: "config \<Rightarrow> real \<Rightarrow> py_error + real" where
  "smoothing_derivative cfg distance =
     (let value1 = - 6 * (smoothing_radius cfg - distance) ^ 2
      in if smoothing_radius cfg ^ 4 = 0 then Inl ZeroDivisionError
         else Inr (value1 / smoothing_radius cfg ^ 4))"

subsection \<open>Distance and pressure (lines 35 to 48)\<close>

definition calculate_distance :: "vec \<Rightarrow> vec \<Rightarrow> real" where
  "calculate_distance point1 point2 =
     sqrt ((fst point1 - fst point2) ^ 2 + (snd point1 - snd point2) ^ 2)"

text \<open>
  The body of the loop of \<open>calculate_pressure\<close>, run over a list of indices; the
  accumulator is the local \<open>pressure\<close>. \<open>positions[i]\<close> is read first, then the
  kernel is called, then \<open>masses[i]\<close> is read.
\<close>

fun calculate_pressure_loop ::
  "config \<Rightarrow> vec \<Rightarrow> vec list \<Rightarrow> real list \<Rightarrow> nat list \<Rightarrow> real \<Rightarrow> py_error + real" where
  "calculate_pressure_loop cfg point positions masses [] pressure = Inr pressure"
| "calculate_pressure_loop cfg point positions masses (i # rest) pressure =
     (if length positions \<le> i then Inl IndexError
      else
        (case smoothing_function cfg (calculate_distance point (positions ! i)) of
           Inl e \<Rightarrow> Inl e
         | Inr w \<Rightarrow>
             if length masses \<le> i then Inl IndexError
             else calculate_pressure_loop cfg point positions masses rest
                    (pressure + w * masses ! i)))"

definition calculate_pressure :: "config \<Rightarrow> vec \<Rightarrow> vec list \<Rightarrow> real list \<Rightarrow> py_error + real" where
  "calculate_pressure cfg point positions masses =
     calculate_pressure_loop cfg point positions masses [0..<num_particles cfg] 0"

subsection \<open>The update (lines 51 to 143)\<close>

text \<open>
  Lines 56 to 62: the list comprehension reads \<open>initial_positions[i]\<close> and
  \<open>initial_speeds[i]\<close> for every \<open>i\<close> below \<open>NUM_PARTICLES\<close>.
\<close>

definition predicted_positions :: "config \<Rightarrow> vec list \<Rightarrow> vec list \<Rightarrow> py_error + vec list" where
  "predicted_positions cfg initial_speeds initial_positions =
     (if length initial_positions < num_particles cfg
         \<or> length initial_speeds < num_particles cfg
      then Inl IndexError
      else Inr (map (\<lambda>i. (fst (initial_positions ! i) + fst (initial_speeds ! i),
                          snd (initial_positions ! i) + snd (initial_speeds ! i)))
                    [0..<num_particles cfg]))"

text \<open>
  Lines 80 to 101: the inner loop over \<open>j\<close>, run over a list of indices; the
  accumulator is the local \<open>pressure_force\<close>. The derivative is called before
  \<open>masses[j]\<close> is read, and the division by \<open>distance\<close> comes after both.
\<close>

fun pressure_force_loop ::
  "config \<Rightarrow> vec list \<Rightarrow> real list \<Rightarrow> nat \<Rightarrow> real \<Rightarrow> nat list \<Rightarrow> vec \<Rightarrow> py_error + vec" where
  "pressure_force_loop cfg pred masses i pressure [] pressure_force = Inr pressure_force"
| "pressure_force_loop cfg pred masses i pressure (j # rest) pressure_force =
     (if i \<noteq> j then
        (if length pred \<le> i \<or> length pred \<le> j then Inl IndexError
         else
           (let distance = calculate_distance (pred ! i) (pred ! j)
            in case smoothing_derivative cfg distance of
                 Inl e \<Rightarrow> Inl e
               | Inr derivative \<Rightarrow>
                   if length masses \<le> j then Inl IndexError
                   else
                     (let pressure_gradient = derivative * masses ! j;
                          pressure_difference = target_pressure cfg - pressure
                      in if distance = 0 then Inl ZeroDivisionError
                         else pressure_force_loop cfg pred masses i pressure rest
                                (fst pressure_force
                                   + ((fst (pred ! i) - fst (pred ! j)) / distance)
                                     * pressure_gradient * pressure_difference
                                     * pressure_force_mult cfg,
                                 snd pressure_force
                                   + ((snd (pred ! i) - snd (pred ! j)) / distance)
                                     * pressure_gradient * pressure_difference
                                     * pressure_force_mult cfg))))
      else pressure_force_loop cfg pred masses i pressure rest pressure_force)"

text \<open>
  Lines 68 to 104: the body of the outer loop for one particle \<open>i\<close>, from
  \<open>acceleration = [0, 0]\<close> to the two divisions by \<open>pressure\<close>.
\<close>

definition acceleration_of :: "config \<Rightarrow> vec list \<Rightarrow> real list \<Rightarrow> nat \<Rightarrow> py_error + vec" where
  "acceleration_of cfg pred masses i =
     (let acceleration = (0, 0 + gravity cfg)
      in if length pred \<le> i then Inl IndexError
         else
           (case calculate_pressure cfg (pred ! i) pred masses of
              Inl e \<Rightarrow> Inl e
            | Inr pressure \<Rightarrow>
                (case pressure_force_loop cfg pred masses i pressure
                        [0..<num_particles cfg] (0, 0) of
                   Inl e \<Rightarrow> Inl e
                 | Inr pressure_force \<Rightarrow>
                     if pressure = 0 then Inl ZeroDivisionError
                     else Inr (fst acceleration + fst pressure_force / pressure,
                               snd acceleration + snd pressure_force / pressure))))"

text \<open>Lines 64 to 107: the outer loop, appending one acceleration per particle.\<close>

fun accelerations_loop ::
  "config \<Rightarrow> vec list \<Rightarrow> real list \<Rightarrow> nat list \<Rightarrow> py_error + vec list" where
  "accelerations_loop cfg pred masses [] = Inr []"
| "accelerations_loop cfg pred masses (i # rest) =
     (case acceleration_of cfg pred masses i of
        Inl e \<Rightarrow> Inl e
      | Inr acceleration \<Rightarrow>
          (case accelerations_loop cfg pred masses rest of
             Inl e \<Rightarrow> Inl e
           | Inr accelerations \<Rightarrow> Inr (acceleration # accelerations)))"

text \<open>
  Lines 126 to 132 and 135 to 141 are the same \<open>if\<close>/\<open>elif\<close> on one coordinate,
  with \<open>WIDTH\<close> and with \<open>HEIGHT\<close>: the pair returned is the coordinate of
  \<open>new_positions[i]\<close> and of \<open>new_speeds[i]\<close> after it.
\<close>

definition wall_bounce :: "config \<Rightarrow> real \<Rightarrow> real \<Rightarrow> real \<Rightarrow> real \<Rightarrow> real \<times> real" where
  "wall_bounce cfg extent display_size new_position new_speed =
     (if new_position < 0 + display_size
      then (0 + display_size, new_speed * - wall_mult cfg)
      else if new_position > extent - display_size
      then (extent - display_size, new_speed * - wall_mult cfg)
      else (new_position, new_speed))"

text \<open>
  Lines 114 to 141: the body of the last loop for one particle, returning
  \<open>(new_speeds[i], new_positions[i])\<close>. For a negative mass \<open>masses[i] ** (1 / 3)\<close>
  is a complex number and the first comparison raises.
\<close>

definition integrate_particle ::
  "config \<Rightarrow> vec \<Rightarrow> vec \<Rightarrow> real \<Rightarrow> vec \<Rightarrow> py_error + (vec \<times> vec)" where
  "integrate_particle cfg initial_speed predicted_position mass acceleration =
     (let new_speed = (fst initial_speed + fst acceleration,
                       snd initial_speed + snd acceleration);
          new_position = (fst predicted_position + fst new_speed,
                          snd predicted_position + snd new_speed)
      in if mass < 0 then Inl TypeError
         else
           (let display_size = root 3 mass * particle_size cfg;
                (px, sx) = wall_bounce cfg (width cfg) display_size
                             (fst new_position) (fst new_speed);
                (py, sy) = wall_bounce cfg (height cfg) display_size
                             (snd new_position) (snd new_speed)
            in Inr ((sx, sy), (px, py))))"

text \<open>Lines 109 to 141: the last loop, filling \<open>new_speeds\<close> and \<open>new_positions\<close>.\<close>

fun integrate_loop ::
  "config \<Rightarrow> vec list \<Rightarrow> vec list \<Rightarrow> real list \<Rightarrow> vec list \<Rightarrow> nat list
     \<Rightarrow> py_error + (vec list \<times> vec list)" where
  "integrate_loop cfg initial_speeds pred masses accelerations [] = Inr ([], [])"
| "integrate_loop cfg initial_speeds pred masses accelerations (i # rest) =
     (if length initial_speeds \<le> i \<or> length accelerations \<le> i
         \<or> length pred \<le> i \<or> length masses \<le> i
      then Inl IndexError
      else
        (case integrate_particle cfg (initial_speeds ! i) (pred ! i) (masses ! i)
                (accelerations ! i) of
           Inl e \<Rightarrow> Inl e
         | Inr (new_speed, new_position) \<Rightarrow>
             (case integrate_loop cfg initial_speeds pred masses accelerations rest of
                Inl e \<Rightarrow> Inl e
              | Inr (new_speeds, new_positions) \<Rightarrow>
                  Inr (new_speed # new_speeds, new_position # new_positions))))"

definition update ::
  "config \<Rightarrow> vec list \<Rightarrow> vec list \<Rightarrow> real list \<Rightarrow> py_error + (vec list \<times> vec list)" where
  "update cfg initial_speeds initial_positions masses =
     (case predicted_positions cfg initial_speeds initial_positions of
        Inl e \<Rightarrow> Inl e
      | Inr pred \<Rightarrow>
          (case accelerations_loop cfg pred masses [0..<num_particles cfg] of
             Inl e \<Rightarrow> Inl e
           | Inr accelerations \<Rightarrow>
               integrate_loop cfg initial_speeds pred masses accelerations
                 [0..<num_particles cfg]))"

text \<open>
  Lines 171 and 172: \<open>t\<close> turns of the driving loop of \<open>main\<close>, which feeds the
  result of \<open>update\<close> back into it with the same masses (drawing left out).
\<close>

fun run_steps ::
  "config \<Rightarrow> nat \<Rightarrow> vec list \<Rightarrow> vec list \<Rightarrow> real list \<Rightarrow> py_error + (vec list \<times> vec list)" where
  "run_steps cfg 0 speeds positions masses = Inr (speeds, positions)"
| "run_steps cfg (Suc t) speeds positions masses =
     (case update cfg speeds positions masses of
        Inl e \<Rightarrow> Inl e
      | Inr (speeds', positions') \<Rightarrow> run_steps cfg t speeds' positions' masses)"

subsection \<open>Runs without pairwise force\<close>

text \<open>
  The pressure force that lines 74 to 101 accumulate for particle \<open>i\<close> in the state
  \<open>(speeds, positions)\<close> is \<open>[0, 0]\<close>: the predicted positions and the pressure are
  computed as \<open>update\<close> computes them, and the loop over \<open>j\<close> returns the zero vector.
\<close>

definition pairwise_force_zero ::
  "config \<Rightarrow> vec list \<Rightarrow> vec list \<Rightarrow> real list \<Rightarrow> nat \<Rightarrow> bool" where
  "pairwise_force_zero cfg speeds positions masses i =
     (case predicted_positions cfg speeds positions of
        Inl e \<Rightarrow> False
      | Inr pred \<Rightarrow>
          (case calculate_pressure cfg (pred ! i) pred masses of
             Inl e \<Rightarrow> False
           | Inr pressure \<Rightarrow>
               pressure_force_loop cfg pred masses i pressure [0..<num_particles cfg] (0, 0)
                 = Inr (0, 0)))"

subsection \<open>The pressure estimate in double arithmetic\<close>









subsection \<open>The formulas of the specification\<close>

text \<open>
  The definitions of this subsection follow the words of the specification, not the
  code: its sections 4.1 to 4.3 give the kernel, its derivative, the pressure sum and
  the acceleration as closed formulas. The theorems below compare them with what the
  functions above compute.
\<close>

definition spec_kernel :: "real \<Rightarrow> real \<Rightarrow> real" where
  "spec_kernel h d = (2 / h) * (max 0 ((h - d) / h)) ^ 3"

definition spec_pressure :: "config \<Rightarrow> vec \<Rightarrow> vec list \<Rightarrow> real list \<Rightarrow> real" where
  "spec_pressure cfg point positions masses =
     (\<Sum>i<num_particles cfg.
        spec_kernel (smoothing_radius cfg) (calculate_distance point (positions ! i)) * masses ! i)"

definition spec_derivative :: "real \<Rightarrow> real \<Rightarrow> real" where
  "spec_derivative h d = - 6 * (h - d) ^ 2 / h ^ 4"

definition spec_force_term ::
  "config \<Rightarrow> vec list \<Rightarrow> real list \<Rightarrow> real \<Rightarrow> (vec \<Rightarrow> real) \<Rightarrow> nat \<Rightarrow> nat \<Rightarrow> real" where
  "spec_force_term cfg p' masses pressureAtI axis i j =
     (let d = calculate_distance (p' ! i) (p' ! j)
      in ((axis (p' ! i) - axis (p' ! j)) / d) * spec_derivative (smoothing_radius cfg) d
           * masses ! j * (target_pressure cfg - pressureAtI) * pressure_force_mult cfg)"

definition spec_acceleration :: "config \<Rightarrow> vec list \<Rightarrow> real list \<Rightarrow> nat \<Rightarrow> vec" where
  "spec_acceleration cfg p' masses i =
     (let pressureAtI = spec_pressure cfg (p' ! i) p' masses;
          force = (\<Sum>j\<in>{..<num_particles cfg} - {i}. spec_force_term cfg p' masses pressureAtI fst i j,
                   \<Sum>j\<in>{..<num_particles cfg} - {i}. spec_force_term cfg p' masses pressureAtI snd i j)
      in (0 + fst force / pressureAtI, gravity cfg + snd force / pressureAtI))"

subsection \<open>Properties\<close>

lemma smoothing_function_kernel:
  "smoothing_radius cfg \<noteq> 0 \<Longrightarrow>
   smoothing_function cfg d = Inr (spec_kernel (smoothing_radius cfg) d)"
  by (simp add: smoothing_function_def spec_kernel_def Let_def)

lemma spec_kernel_nonneg: "0 < h \<Longrightarrow> 0 \<le> spec_kernel h d"
  by (simp add: spec_kernel_def)

lemma spec_kernel_zero: "0 < h \<Longrightarrow> spec_kernel h 0 = 2 / h"
  by (simp add: spec_kernel_def)

lemma spec_kernel_outside: "0 < h \<Longrightarrow> h \<le> d \<Longrightarrow> spec_kernel h d = 0"
proof -
  assume h: "0 < h" and d: "h \<le> d"
  have "(h - d) / h \<le> 0" using h d by (simp add: divide_le_0_iff)
  then have "max 0 ((h - d) / h) = 0" by simp
  then show ?thesis by (simp add: spec_kernel_def)
qed

lemma spec_kernel_strict_decreasing:
  assumes h: "0 < h" and d: "0 \<le> d1" "d1 < d2" "d2 < h"
  shows "spec_kernel h d2 < spec_kernel h d1"
proof -
  have lt: "(h - d2) / h < (h - d1) / h"
    using h d by (simp add: divide_strict_right_mono)
  have pos: "0 < (h - d2) / h"
    using h d by simp
  have "((h - d2) / h) ^ 3 < ((h - d1) / h) ^ 3"
    using lt pos by (intro power_strict_mono) simp_all
  moreover have "max 0 ((h - d2) / h) = (h - d2) / h" "max 0 ((h - d1) / h) = (h - d1) / h"
    using pos lt by simp_all
  ultimately have "(2 / h) * max 0 ((h - d2) / h) ^ 3 < (2 / h) * max 0 ((h - d1) / h) ^ 3"
    using h by (intro mult_strict_left_mono) simp_all
  then show ?thesis
    by (simp add: spec_kernel_def)
qed

lemma spec_kernel_le_max: "0 < h \<Longrightarrow> 0 \<le> d \<Longrightarrow> spec_kernel h d \<le> 2 / h"
proof -
  assume h: "0 < h" and d: "0 \<le> d"
  have le1: "max 0 ((h - d) / h) \<le> 1" using h d by simp
  have ge0: "0 \<le> max 0 ((h - d) / h)" by simp
  have "max 0 ((h - d) / h) ^ 3 \<le> 1" by (rule power_le_one[OF ge0 le1])
  then have "(2 / h) * max 0 ((h - d) / h) ^ 3 \<le> (2 / h) * 1"
    using h by (intro mult_left_mono) simp_all
  then show ?thesis by (simp add: spec_kernel_def)
qed

text \<open>
  Claim C6. For a positive radius the kernel is zero from the radius on, strictly
  decreasing on \<open>[0, h)\<close>, equal to \<open>2 / h\<close> at distance zero, and never above that
  value at a distance \<open>d \<ge> 0\<close>.
\<close>

theorem smoothing_function_shape:
  "0 < smoothing_radius cfg \<Longrightarrow>
     (\<forall>d. smoothing_radius cfg \<le> d \<longrightarrow> smoothing_function cfg d = Inr 0)
   \<and> (\<forall>d1 d2 v1 v2. 0 \<le> d1 \<and> d1 < d2 \<and> d2 < smoothing_radius cfg
          \<and> smoothing_function cfg d1 = Inr v1 \<and> smoothing_function cfg d2 = Inr v2
          \<longrightarrow> v2 < v1)
   \<and> smoothing_function cfg 0 = Inr (2 / smoothing_radius cfg)
   \<and> (\<forall>d. 0 \<le> d \<longrightarrow> (\<exists>v. smoothing_function cfg d = Inr v \<and> v \<le> 2 / smoothing_radius cfg))"
  by (auto simp: smoothing_function_kernel spec_kernel_outside spec_kernel_zero
        spec_kernel_le_max spec_kernel_strict_decreasing)

text \<open>
  Claim C3. For a positive radius \<open>h\<close> and every distance \<open>d \<ge> 0\<close> the kernel
  derivative is \<open>- 6 (h - d)\<^sup>2 / h\<^sup>4\<close>, by the same formula on both sides of \<open>d = h\<close>;
  beyond \<open>h\<close> that value is negative, hence not zero, although the kernel is zero
  there.
\<close>

theorem smoothing_derivative_untruncated:
  "0 < smoothing_radius cfg \<Longrightarrow> 0 \<le> d \<Longrightarrow>
     smoothing_derivative cfg d
       = Inr (- 6 * (smoothing_radius cfg - d) ^ 2 / smoothing_radius cfg ^ 4)
   \<and> (smoothing_radius cfg < d \<longrightarrow>
        - 6 * (smoothing_radius cfg - d) ^ 2 / smoothing_radius cfg ^ 4 < 0
        \<and> smoothing_function cfg d = Inr 0)"
  by (auto simp: smoothing_derivative_def Let_def smoothing_function_kernel spec_kernel_outside
        divide_less_0_iff)

lemma calculate_pressure_loop_sum:
  assumes "smoothing_radius cfg \<noteq> 0"
    and "\<forall>i\<in>set idx. i < length positions \<and> i < length masses"
  shows "calculate_pressure_loop cfg point positions masses idx acc
     = Inr (acc + (\<Sum>i\<leftarrow>idx. spec_kernel (smoothing_radius cfg)
                      (calculate_distance point (positions ! i)) * masses ! i))"
  using assms
  by (induction idx arbitrary: acc) (simp_all add: smoothing_function_kernel add.assoc)

lemma calculate_pressure_spec:
  assumes "smoothing_radius cfg \<noteq> 0"
    and "num_particles cfg \<le> length positions" "num_particles cfg \<le> length masses"
  shows "calculate_pressure cfg point positions masses
           = Inr (spec_pressure cfg point positions masses)"
proof -
  have "\<forall>i\<in>set [0..<num_particles cfg]. i < length positions \<and> i < length masses"
    using assms by auto
  then show ?thesis
    unfolding calculate_pressure_def spec_pressure_def
    by (simp add: calculate_pressure_loop_sum[OF assms(1)] interv_sum_list_conv_sum_set_nat
          atLeast0LessThan)
qed

lemma calculate_distance_self: "calculate_distance p p = 0"
  by (simp add: calculate_distance_def)

lemma smoothing_derivative_spec:
  "smoothing_radius cfg \<noteq> 0 \<Longrightarrow>
   smoothing_derivative cfg d = Inr (spec_derivative (smoothing_radius cfg) d)"
  by (simp add: smoothing_derivative_def spec_derivative_def Let_def)

lemma calculate_distance_eq_0_iff: "calculate_distance p q = 0 \<longleftrightarrow> p = q"
  by (auto simp: calculate_distance_def prod_eq_iff sum_power2_eq_zero_iff)

lemma pressure_force_loop_sum:
  assumes "smoothing_radius cfg \<noteq> 0"
    and "i < length pred"
    and "\<forall>j\<in>set js. j < length pred \<and> j < length masses"
    and "\<forall>j\<in>set js. j \<noteq> i \<longrightarrow> pred ! i \<noteq> pred ! j"
  shows "pressure_force_loop cfg pred masses i p js f
     = Inr (fst f + (\<Sum>j\<leftarrow>filter (\<lambda>j. j \<noteq> i) js. spec_force_term cfg pred masses p fst i j),
            snd f + (\<Sum>j\<leftarrow>filter (\<lambda>j. j \<noteq> i) js. spec_force_term cfg pred masses p snd i j))"
  using assms
proof (induction js arbitrary: f)
  case Nil
  then show ?case by simp
next
  case (Cons j js)
  show ?case
  proof (cases "i = j")
    case True
    then show ?thesis using Cons by simp
  next
    case False
    then have d: "calculate_distance (pred ! i) (pred ! j) \<noteq> 0"
      using Cons.prems by (simp add: calculate_distance_eq_0_iff)
    have IH: "\<And>f. pressure_force_loop cfg pred masses i p js f
     = Inr (fst f + (\<Sum>j\<leftarrow>filter (\<lambda>j. j \<noteq> i) js. spec_force_term cfg pred masses p fst i j),
            snd f + (\<Sum>j\<leftarrow>filter (\<lambda>j. j \<noteq> i) js. spec_force_term cfg pred masses p snd i j))"
      using Cons by simp
    have neq: "j \<noteq> i" using False by simp
    show ?thesis
      using False neq d Cons.prems(1,2,3)
      by (simp add: IH smoothing_derivative_spec Let_def spec_force_term_def algebra_simps)
  qed
qed

lemma filter_neq_upt_set: "set (filter (\<lambda>j. j \<noteq> i) [0..<n]) = {..<n} - {i}"
  by auto

lemma pressure_force_loop_spec:
  assumes "smoothing_radius cfg \<noteq> 0"
    and "i < length pred"
    and "num_particles cfg \<le> length pred" "num_particles cfg \<le> length masses"
    and "\<forall>j<num_particles cfg. j \<noteq> i \<longrightarrow> pred ! i \<noteq> pred ! j"
  shows "pressure_force_loop cfg pred masses i p [0..<num_particles cfg] (0, 0)
     = Inr (\<Sum>j\<in>{..<num_particles cfg} - {i}. spec_force_term cfg pred masses p fst i j,
            \<Sum>j\<in>{..<num_particles cfg} - {i}. spec_force_term cfg pred masses p snd i j)"
proof -
  have a: "\<forall>j\<in>set [0..<num_particles cfg]. j < length pred \<and> j < length masses"
    using assms by auto
  have b: "\<forall>j\<in>set [0..<num_particles cfg]. j \<noteq> i \<longrightarrow> pred ! i \<noteq> pred ! j"
    using assms by auto
  have s: "\<And>g::nat \<Rightarrow> real. (\<Sum>j\<leftarrow>filter (\<lambda>j. j \<noteq> i) [0..<num_particles cfg]. g j)
              = sum g ({..<num_particles cfg} - {i})"
    by (simp add: sum_list_distinct_conv_sum_set filter_neq_upt_set del: set_filter)
  show ?thesis
    by (simp add: pressure_force_loop_sum[OF assms(1,2) a b] s)
qed

lemma acceleration_of_spec:
  assumes "smoothing_radius cfg \<noteq> 0"
    and "i < num_particles cfg"
    and "num_particles cfg \<le> length pred" "num_particles cfg \<le> length masses"
    and "\<forall>j<num_particles cfg. j \<noteq> i \<longrightarrow> pred ! i \<noteq> pred ! j"
    and "spec_pressure cfg (pred ! i) pred masses \<noteq> 0"
  shows "acceleration_of cfg pred masses i = Inr (spec_acceleration cfg pred masses i)"
proof -
  have i: "i < length pred" using assms by simp
  show ?thesis
    using i assms(6)
    by (simp add: acceleration_of_def calculate_pressure_spec[OF assms(1,3,4)]
          pressure_force_loop_spec[OF assms(1) i assms(3,4,5)] spec_acceleration_def Let_def)
qed

lemma accelerations_loop_map:
  "\<forall>i\<in>set idx. acceleration_of cfg pred masses i = Inr (g i) \<Longrightarrow>
   accelerations_loop cfg pred masses idx = Inr (map g idx)"
  by (induction idx) simp_all

lemma predicted_positions_length:
  "predicted_positions cfg V P = Inr pred \<Longrightarrow>
     length pred = num_particles cfg \<and> num_particles cfg \<le> length V \<and> num_particles cfg \<le> length P"
  by (auto simp: predicted_positions_def split: if_splits)

lemma predicted_positions_nth:
  "predicted_positions cfg V P = Inr pred \<Longrightarrow> i < num_particles cfg \<Longrightarrow>
     pred ! i = (fst (P ! i) + fst (V ! i), snd (P ! i) + snd (V ! i))"
  by (auto simp: predicted_positions_def split: if_splits)

text \<open>
  Claim C4. When no division fails (nonzero radius, pairwise distinct predicted
  positions, nonzero pressures), the list of accelerations that \<open>update\<close> builds is,
  entry by entry, the formula of the specification evaluated on the predicted
  positions \<open>p' = position + velocity\<close> and the masses alone: \<open>(0, G)\<close> plus the sum over
  \<open>j \<noteq> i\<close> of the pairwise terms divided by the pressure at \<open>p'\<^sub>i\<close>; the integration
  that follows receives that list, computed in full before it starts.
\<close>

theorem update_accelerations_from_snapshot:
  assumes "predicted_positions cfg V P = Inr p'"
    and "num_particles cfg \<le> length masses"
    and "smoothing_radius cfg \<noteq> 0"
    and "\<forall>i<num_particles cfg. \<forall>j<num_particles cfg. i \<noteq> j \<longrightarrow> p' ! i \<noteq> p' ! j"
    and "\<forall>i<num_particles cfg. spec_pressure cfg (p' ! i) p' masses \<noteq> 0"
  shows "accelerations_loop cfg p' masses [0..<num_particles cfg]
           = Inr (map (spec_acceleration cfg p' masses) [0..<num_particles cfg])
       \<and> update cfg V P masses
           = integrate_loop cfg V p' masses
               (map (spec_acceleration cfg p' masses) [0..<num_particles cfg])
               [0..<num_particles cfg]
       \<and> (\<forall>i<num_particles cfg.
             p' ! i = (fst (P ! i) + fst (V ! i), snd (P ! i) + snd (V ! i))
           \<and> calculate_pressure cfg (p' ! i) p' masses
               = Inr (spec_pressure cfg (p' ! i) p' masses))"
proof -
  have len: "num_particles cfg \<le> length p'"
    using predicted_positions_length[OF assms(1)] by simp
  have "\<forall>i\<in>set [0..<num_particles cfg].
          acceleration_of cfg p' masses i = Inr (spec_acceleration cfg p' masses i)"
    using assms(4,5) by (auto intro!: acceleration_of_spec[OF assms(3) _ len assms(2)])
  then have acc: "accelerations_loop cfg p' masses [0..<num_particles cfg]
           = Inr (map (spec_acceleration cfg p' masses) [0..<num_particles cfg])"
    by (rule accelerations_loop_map)
  then have "update cfg V P masses
           = integrate_loop cfg V p' masses
               (map (spec_acceleration cfg p' masses) [0..<num_particles cfg])
               [0..<num_particles cfg]"
    by (simp add: update_def assms(1))
  moreover have "\<forall>i<num_particles cfg.
             p' ! i = (fst (P ! i) + fst (V ! i), snd (P ! i) + snd (V ! i))"
    using predicted_positions_nth[OF assms(1)] by simp
  ultimately show ?thesis
    using acc by (simp add: calculate_pressure_spec[OF assms(3) len assms(2)])
qed

text \<open>
  Claim C5. With a nonzero radius and at least \<open>N\<close> positions and masses,
  \<open>calculate_pressure\<close> returns the sum over all \<open>N\<close> particles of the kernel at the
  distance to the particle times its mass, the terms of particles at the query point
  included; when all \<open>N\<close> particles are at the query point this is the kernel at zero
  times the sum of the masses.
\<close>

theorem calculate_pressure_is_kernel_sum:
  assumes "smoothing_radius cfg \<noteq> 0"
    and "num_particles cfg \<le> length positions" "num_particles cfg \<le> length masses"
  shows "(\<forall>d. smoothing_function cfg d = Inr (spec_kernel (smoothing_radius cfg) d))
       \<and> calculate_pressure cfg point positions masses
           = Inr (\<Sum>i<num_particles cfg.
                    spec_kernel (smoothing_radius cfg) (calculate_distance point (positions ! i))
                      * masses ! i)
       \<and> ((\<forall>i<num_particles cfg. positions ! i = point) \<longrightarrow>
            calculate_pressure cfg point positions masses
              = Inr (spec_kernel (smoothing_radius cfg) 0 * (\<Sum>i<num_particles cfg. masses ! i)))"
proof -
  have "calculate_pressure cfg point positions masses
           = Inr (\<Sum>i<num_particles cfg.
                    spec_kernel (smoothing_radius cfg) (calculate_distance point (positions ! i))
                      * masses ! i)"
    using calculate_pressure_spec[OF assms] by (simp add: spec_pressure_def)
  moreover have "(\<Sum>i<num_particles cfg.
                    spec_kernel (smoothing_radius cfg) (calculate_distance point (positions ! i))
                      * masses ! i)
       = spec_kernel (smoothing_radius cfg) 0 * (\<Sum>i<num_particles cfg. masses ! i)"
    if "\<forall>i<num_particles cfg. positions ! i = point"
    using that by (simp add: calculate_distance_self sum_distrib_left)
  ultimately show ?thesis
    using assms(1) by (simp add: smoothing_function_kernel)
qed

lemma all_less_2: "(\<forall>i<(2::nat). P i) \<longleftrightarrow> P 0 \<and> P 1"
  by (auto simp: less_2_cases_iff)

lemma sum_less_2: "(\<Sum>i<(2::nat). f i) = f 0 + (f 1 :: real)"
  by (simp add: numeral_2_eq_2)

lemma calculate_distance_same_y: "calculate_distance (x1, y) (x2, y) = \<bar>x1 - x2\<bar>"
  by (simp add: calculate_distance_def)

theorem calculate_pressure_is_kernel_sum_witness:
  "calculate_pressure (source_config\<lparr>num_particles := 2\<rparr>) (0, 0) [(0, 0), (10, 0)] [1, 1]
     = Inr (7 / 81)
   \<and> calculate_pressure (source_config\<lparr>num_particles := 2\<rparr>) (3, 4) [(3, 4), (3, 4)] [1, 2]
     = Inr (1 / 5)"
proof -
  let ?cfg = "source_config\<lparr>num_particles := 2\<rparr>"
  have h: "smoothing_radius ?cfg \<noteq> 0" by (simp add: source_config_def)
  have a: "num_particles ?cfg \<le> length [(0, 0), (10, 0 :: real) :: vec]"
          "num_particles ?cfg \<le> length [1, 1 :: real]"
    by (simp_all add: source_config_def)
  have b: "num_particles ?cfg \<le> length [(3, 4), (3, 4 :: real) :: vec]"
          "num_particles ?cfg \<le> length [1, 2 :: real]"
    by (simp_all add: source_config_def)
  have c: "\<forall>i<num_particles ?cfg. [(3, 4), (3, 4 :: real) :: vec] ! i = (3, 4)"
    by (simp add: source_config_def all_less_2)
  show ?thesis
    using calculate_pressure_is_kernel_sum[OF h a, of "(0, 0)"] calculate_pressure_is_kernel_sum[OF h b, of "(3, 4)"] c
    by (simp add: source_config_def sum_less_2 spec_kernel_def calculate_distance_same_y
          power3_eq_cube)
qed

theorem smoothing_function_shape_witness:
  "smoothing_function source_config 30 = Inr 0
   \<and> smoothing_function source_config 45 = Inr 0
   \<and> smoothing_function source_config 0 = Inr (1 / 15)
   \<and> smoothing_function source_config 15 = Inr (1 / 120)
   \<and> (1 / 120 :: real) < 1 / 15"
proof -
  have h: "0 < smoothing_radius source_config" by (simp add: source_config_def)
  have v: "smoothing_function source_config 15 = Inr (1 / 120)"
    by (simp add: smoothing_function_def source_config_def Let_def power3_eq_cube)
  have r: "smoothing_radius source_config = 30" by (simp add: source_config_def)
  from smoothing_function_shape[OF h] have
    a: "\<forall>d. smoothing_radius source_config \<le> d \<longrightarrow> smoothing_function source_config d = Inr 0"
    and b: "\<forall>d1 d2 v1 v2. 0 \<le> d1 \<and> d1 < d2 \<and> d2 < smoothing_radius source_config
          \<and> smoothing_function source_config d1 = Inr v1
          \<and> smoothing_function source_config d2 = Inr v2 \<longrightarrow> v2 < v1"
    and c: "smoothing_function source_config 0 = Inr (2 / smoothing_radius source_config)"
    by blast+
  have "smoothing_function source_config 30 = Inr 0" "smoothing_function source_config 45 = Inr 0"
    using a r by simp_all
  moreover have c': "smoothing_function source_config 0 = Inr (1 / 15)"
    using c r by simp
  moreover have "(1 / 120 :: real) < 1 / 15"
    using b[rule_format, of 0 15 "1 / 15" "1 / 120"] c' v r by simp
  ultimately show ?thesis using v by simp
qed

theorem smoothing_derivative_untruncated_witness:
  "smoothing_derivative source_config 40 = Inr (- 1 / 1350)
   \<and> (- 1 / 1350 :: real) < 0
   \<and> smoothing_function source_config 40 = Inr 0
   \<and> smoothing_derivative source_config 10 = Inr (- 2 / 675)"
proof -
  have h: "0 < smoothing_radius source_config" by (simp add: source_config_def)
  show ?thesis
    using smoothing_derivative_untruncated[OF h, of 40] smoothing_derivative_untruncated[OF h, of 10] by (simp add: source_config_def)
qed

lemma pressure_force_loop_coincident:
  assumes "smoothing_radius cfg \<noteq> 0"
    and "i < length pred"
    and "\<forall>k\<in>set js. k < length pred \<and> k < length masses"
    and "j \<in> set js" "j \<noteq> i" "pred ! i = pred ! j"
  shows "pressure_force_loop cfg pred masses i p js f = Inl ZeroDivisionError"
  using assms
proof (induction js arbitrary: f)
  case Nil
  then show ?case by simp
next
  case (Cons k js)
  have rng: "k < length pred" "k < length masses" using Cons.prems by simp_all
  show ?case
  proof (cases "i = k")
    case True
    then have "j \<in> set js" using Cons.prems by auto
    then have "pressure_force_loop cfg pred masses i p js f = Inl ZeroDivisionError"
      using Cons.IH Cons.prems by simp
    then show ?thesis using True by simp
  next
    case False
    show ?thesis
    proof (cases "calculate_distance (pred ! i) (pred ! k) = 0")
      case True
      then show ?thesis
        using False rng Cons.prems(1,2) by (simp add: smoothing_derivative_spec Let_def)
    next
      case nz: False
      then have "k \<noteq> j"
        using Cons.prems by (auto simp: calculate_distance_eq_0_iff)
      then have "j \<in> set js" using Cons.prems by simp
      then have IH: "\<And>f. pressure_force_loop cfg pred masses i p js f = Inl ZeroDivisionError"
        using Cons.IH Cons.prems by simp
      show ?thesis
        using False nz rng Cons.prems(1,2) by (simp add: smoothing_derivative_spec Let_def IH)
    qed
  qed
qed

lemma pressure_force_loop_error:
  assumes "smoothing_radius cfg \<noteq> 0"
    and "i < length pred"
    and "\<forall>k\<in>set js. k < length pred \<and> k < length masses"
    and "pressure_force_loop cfg pred masses i p js f = Inl e"
  shows "e = ZeroDivisionError"
  using assms
proof (induction js arbitrary: f)
  case Nil
  then show ?case by simp
next
  case (Cons k js)
  then show ?case
    by (auto simp: smoothing_derivative_spec Let_def split: if_splits)
qed

lemma acceleration_of_error:
  assumes "smoothing_radius cfg \<noteq> 0"
    and "i < num_particles cfg"
    and "num_particles cfg \<le> length pred" "num_particles cfg \<le> length masses"
    and "acceleration_of cfg pred masses i = Inl e"
  shows "e = ZeroDivisionError"
proof -
  have i: "i < length pred" using assms by simp
  have r: "\<forall>k\<in>set [0..<num_particles cfg]. k < length pred \<and> k < length masses"
    using assms by auto
  show ?thesis
    using assms(5) i pressure_force_loop_error[OF assms(1) i r]
    by (auto simp: acceleration_of_def Let_def calculate_pressure_spec[OF assms(1,3,4)]
          split: sum.splits if_splits)
qed

lemma acceleration_of_coincident:
  assumes "smoothing_radius cfg \<noteq> 0"
    and "i < num_particles cfg" "j < num_particles cfg" "j \<noteq> i"
    and "num_particles cfg \<le> length pred" "num_particles cfg \<le> length masses"
    and "pred ! i = pred ! j"
  shows "acceleration_of cfg pred masses i = Inl ZeroDivisionError"
proof -
  have i: "i < length pred" using assms by simp
  have r: "\<forall>k\<in>set [0..<num_particles cfg]. k < length pred \<and> k < length masses"
    using assms by auto
  have j: "j \<in> set [0..<num_particles cfg]" using assms by simp
  show ?thesis
    using i
    by (simp add: acceleration_of_def calculate_pressure_spec[OF assms(1,5,6)]
          pressure_force_loop_coincident[OF assms(1) i r j assms(4,7)])
qed

lemma accelerations_loop_fails:
  assumes "i \<in> set idx"
    and "acceleration_of cfg pred masses i = Inl ZeroDivisionError"
    and "\<forall>k\<in>set idx. \<forall>e. acceleration_of cfg pred masses k = Inl e \<longrightarrow> e = ZeroDivisionError"
  shows "accelerations_loop cfg pred masses idx = Inl ZeroDivisionError"
  using assms
proof (induction idx)
  case Nil
  then show ?case by simp
next
  case (Cons k idx)
  show ?case
  proof (cases "acceleration_of cfg pred masses k")
    case (Inl e)
    then have "e = ZeroDivisionError" using Cons.prems by simp
    then show ?thesis using Inl by simp
  next
    case (Inr a)
    then have "k \<noteq> i" using Cons.prems by auto
    then have "accelerations_loop cfg pred masses idx = Inl ZeroDivisionError"
      using Cons by simp
    then show ?thesis using Inr by simp
  qed
qed

lemma accelerations_loop_zero_radius:
  assumes "smoothing_radius cfg = 0" and "0 < num_particles cfg"
    and "num_particles cfg \<le> length pred"
  shows "accelerations_loop cfg pred masses [0..<num_particles cfg] = Inl ZeroDivisionError"
proof -
  have u: "[0..<num_particles cfg] = 0 # [1..<num_particles cfg]"
    using assms(2) by (simp add: upt_rec)
  have ne: "pred \<noteq> []" using assms(2,3) by auto
  have "calculate_pressure cfg (pred ! 0) pred masses = Inl ZeroDivisionError"
    using assms(1) ne by (simp add: calculate_pressure_def u smoothing_function_def)
  then have "acceleration_of cfg pred masses 0 = Inl ZeroDivisionError"
    using ne by (simp add: acceleration_of_def)
  then show ?thesis by (simp add: u)
qed

text \<open>
  Claim C9. When two distinct particles have the same predicted position, their
  distance is zero and the pairwise term divides by it unguarded: the acceleration
  of the first of the two, and with it the whole \<open>update\<close>, ends in
  \<open>ZeroDivisionError\<close> instead of returning a value.
\<close>

theorem update_coincident_fails:
  assumes "predicted_positions cfg V P = Inr p'"
    and "num_particles cfg \<le> length masses"
    and "i < num_particles cfg" "j < num_particles cfg" "i \<noteq> j"
    and "p' ! i = p' ! j"
  shows "calculate_distance (p' ! i) (p' ! j) = 0
       \<and> acceleration_of cfg p' masses i = Inl ZeroDivisionError
       \<and> update cfg V P masses = Inl ZeroDivisionError"
proof -
  have len: "num_particles cfg \<le> length p'"
    using predicted_positions_length[OF assms(1)] by simp
  have d: "calculate_distance (p' ! i) (p' ! j) = 0"
    using assms(6) by (simp add: calculate_distance_eq_0_iff)
  have acc: "acceleration_of cfg p' masses i = Inl ZeroDivisionError
       \<and> accelerations_loop cfg p' masses [0..<num_particles cfg] = Inl ZeroDivisionError"
  proof (cases "smoothing_radius cfg = 0")
    case True
    have i: "\<not> length p' \<le> i" using len assms(3) by simp
    have u: "[0..<num_particles cfg] = 0 # [1..<num_particles cfg]"
      using assms(3) by (simp add: upt_rec)
    have ne: "p' \<noteq> []" using len assms(3) by auto
    have "calculate_pressure cfg (p' ! i) p' masses = Inl ZeroDivisionError"
      using True ne by (simp add: calculate_pressure_def u smoothing_function_def)
    then have "acceleration_of cfg p' masses i = Inl ZeroDivisionError"
      using i by (simp add: acceleration_of_def)
    moreover have "0 < num_particles cfg" using assms(3) by simp
    ultimately show ?thesis
      using accelerations_loop_zero_radius[OF True _ len] by simp
  next
    case False
    have a: "acceleration_of cfg p' masses i = Inl ZeroDivisionError"
      using assms(5)
      by (intro acceleration_of_coincident[OF False assms(3,4) _ len assms(2,6)]) simp
    have "\<forall>k\<in>set [0..<num_particles cfg]. \<forall>e.
            acceleration_of cfg p' masses k = Inl e \<longrightarrow> e = ZeroDivisionError"
      using acceleration_of_error[OF False _ len assms(2)] by auto
    moreover have "i \<in> set [0..<num_particles cfg]" using assms(3) by simp
    ultimately show ?thesis
      using a accelerations_loop_fails by blast
  qed
  then show ?thesis
    using d by (simp add: update_def assms(1))
qed

lemma upt_0_2: "[0..<2] = [0, 1]"
  by (simp add: numeral_2_eq_2)

theorem update_coincident_fails_witness:
  "update (source_config\<lparr>num_particles := 2\<rparr>) [(0, 0), (1, 0)] [(11, 20), (10, 20)] [1, 1]
     = Inl ZeroDivisionError"
proof -
  let ?cfg = "source_config\<lparr>num_particles := 2\<rparr>"
  have p: "predicted_positions ?cfg [(0, 0), (1, 0)] [(11, 20), (10, 20)]
             = Inr [(11, 20), (11, 20)]"
    by (simp add: predicted_positions_def source_config_def upt_0_2)
  have m: "num_particles ?cfg \<le> length [1, 1 :: real]" by (simp add: source_config_def)
  have i: "0 < num_particles ?cfg" "1 < num_particles ?cfg" by (simp_all add: source_config_def)
  have e: "[(11, 20), (11, 20 :: real) :: vec] ! 0 = [(11, 20), (11, 20)] ! 1" by simp
  show ?thesis
    using update_coincident_fails[OF p m i _ e] by simp
qed

lemma accelerations_loop_length:
  "accelerations_loop cfg pred masses idx = Inr accs \<Longrightarrow> length accs = length idx"
  by (induction idx arbitrary: accs) (auto split: sum.splits)

lemma upt_0_1: "[0..<1] = [0]"
  by simp

lemma update_single:
  assumes "num_particles cfg = 1" and "smoothing_radius cfg \<noteq> 0" and "m \<noteq> 0"
  shows "update cfg [v] [p] [m]
     = (case integrate_particle cfg v (fst p + fst v, snd p + snd v) m (0, gravity cfg) of
          Inl e \<Rightarrow> Inl e
        | Inr (s, q) \<Rightarrow> Inr ([s], [q]))"
proof -
  let ?pred = "[(fst p + fst v, snd p + snd v)]"
  have pp: "predicted_positions cfg [v] [p] = Inr ?pred"
    using assms(1) by (simp add: predicted_positions_def)
  have pr: "calculate_pressure cfg (fst p + fst v, snd p + snd v) ?pred [m]
              = Inr (2 / smoothing_radius cfg * m)"
    using assms(1,2)
    by (simp add: calculate_pressure_def smoothing_function_def calculate_distance_self Let_def)
  have acc: "acceleration_of cfg ?pred [m] 0 = Inr (0, gravity cfg)"
    using assms by (simp add: acceleration_of_def pr Let_def)
  show ?thesis
    using assms(1) by (simp add: update_def pp acc split: sum.splits prod.splits)
qed

lemma wall_bounce_inside:
  "display_size \<le> x \<Longrightarrow> x \<le> extent - display_size \<Longrightarrow>
   wall_bounce cfg extent display_size x s = (x, s)"
  by (simp add: wall_bounce_def)

lemma update_single_inside:
  assumes "num_particles cfg = 1" and "smoothing_radius cfg \<noteq> 0" and "0 < m"
    and "root 3 m * particle_size cfg \<le> fst p + fst v + fst v"
        "fst p + fst v + fst v \<le> width cfg - root 3 m * particle_size cfg"
    and "root 3 m * particle_size cfg \<le> snd p + snd v + (snd v + gravity cfg)"
        "snd p + snd v + (snd v + gravity cfg) \<le> height cfg - root 3 m * particle_size cfg"
  shows "update cfg [v] [p] [m]
     = Inr ([(fst v, snd v + gravity cfg)],
            [(fst p + fst v + fst v, snd p + snd v + (snd v + gravity cfg))])"
proof -
  have m: "m \<noteq> 0" "\<not> m < 0" using assms(3) by simp_all
  show ?thesis
    using m assms(4-7)
    by (simp add: update_single[OF assms(1,2) m(1)] integrate_particle_def Let_def
          wall_bounce_inside)
qed

lemma run_steps_Suc_end:
  "run_steps cfg (Suc t) V P masses
     = (case run_steps cfg t V P masses of
          Inl e \<Rightarrow> Inl e
        | Inr (V', P') \<Rightarrow> update cfg V' P' masses)"
proof (induction t arbitrary: V P)
  case 0
  show ?case by (simp split: sum.splits prod.splits)
next
  case (Suc t)
  show ?case
  proof (cases "update cfg V P masses")
    case (Inl e)
    then show ?thesis by simp
  next
    case (Inr r)
    obtain V1 P1 where r: "r = (V1, P1)" by (cases r)
    have "run_steps cfg (Suc (Suc t)) V P masses = run_steps cfg (Suc t) V1 P1 masses"
      using Inr r by simp
    also have "\<dots> = (case run_steps cfg t V1 P1 masses of
          Inl e \<Rightarrow> Inl e
        | Inr (V', P') \<Rightarrow> update cfg V' P' masses)"
      by (rule Suc.IH)
    also have "run_steps cfg t V1 P1 masses = run_steps cfg (Suc t) V P masses"
      using Inr r by simp
    finally show ?thesis .
  qed
qed

lemma run_steps_single_fall:
  assumes "num_particles cfg = 1" and "smoothing_radius cfg \<noteq> 0" and "0 < m"
    and "root 3 m * particle_size cfg \<le> x0" "x0 \<le> width cfg - root 3 m * particle_size cfg"
    and "\<forall>k\<in>{1..t}. root 3 m * particle_size cfg \<le> y0 + gravity cfg * real k ^ 2
                  \<and> y0 + gravity cfg * real k ^ 2 \<le> height cfg - root 3 m * particle_size cfg"
  shows "run_steps cfg t [(0, 0)] [(x0, y0)] [m]
           = Inr ([(0, real t * gravity cfg)], [(x0, y0 + gravity cfg * real t ^ 2)])"
  using assms(6)
proof (induction t)
  case 0
  show ?case by simp
next
  case (Suc t)
  have prev: "run_steps cfg t [(0, 0)] [(x0, y0)] [m]
           = Inr ([(0, real t * gravity cfg)], [(x0, y0 + gravity cfg * real t ^ 2)])"
    using Suc by simp
  have e: "y0 + gravity cfg * (real t)\<^sup>2 + real t * gravity cfg + (real t * gravity cfg + gravity cfg)
             = y0 + gravity cfg * real (Suc t) ^ 2"
    by (simp add: power2_eq_square algebra_simps)
  have b: "root 3 m * particle_size cfg \<le> y0 + gravity cfg * real (Suc t) ^ 2"
          "y0 + gravity cfg * real (Suc t) ^ 2 \<le> height cfg - root 3 m * particle_size cfg"
    using bspec[OF Suc.prems, of "Suc t"] by simp_all
  have "update cfg [(0, real t * gravity cfg)] [(x0, y0 + gravity cfg * real t ^ 2)] [m]
     = Inr ([(0, real t * gravity cfg + gravity cfg)],
            [(x0, y0 + gravity cfg * real (Suc t) ^ 2)])"
    using update_single_inside[OF assms(1,2,3), of "(x0, y0 + gravity cfg * real t ^ 2)"
             "(0, real t * gravity cfg)"] assms(4,5) b
    unfolding fst_conv snd_conv e by simp
  then show ?case
    unfolding run_steps_Suc_end prev by (simp add: algebra_simps)
qed


text \<open>
  Claim C8, as amended. A single particle of positive mass at rest under zero
  gravity, placed within the walls (between the display radius and the extent minus
  the display radius on both axes), is left where it is by every step, at rest.
\<close>

theorem single_particle_rest_inside_walls:
  assumes "num_particles cfg = 1" and "gravity cfg = 0"
    and "0 < smoothing_radius cfg" and "0 < m"
    and "root 3 m * particle_size cfg \<le> x0" "x0 \<le> width cfg - root 3 m * particle_size cfg"
    and "root 3 m * particle_size cfg \<le> y0" "y0 \<le> height cfg - root 3 m * particle_size cfg"
  shows "update cfg [(0, 0)] [(x0, y0)] [m] = Inr ([(0, 0)], [(x0, y0)])
       \<and> run_steps cfg t [(0, 0)] [(x0, y0)] [m] = Inr ([(0, 0)], [(x0, y0)])"
proof -
  have h: "smoothing_radius cfg \<noteq> 0" using assms(3) by simp
  have "update cfg [(0, 0)] [(x0, y0)] [m] = Inr ([(0, 0)], [(x0, y0)])"
    using update_single_inside[OF assms(1) h assms(4), of "(x0, y0)" "(0, 0)"] assms(2,5-8)
    by simp
  moreover have "run_steps cfg t [(0, 0)] [(x0, y0)] [m] = Inr ([(0, 0)], [(x0, y0)])"
    using run_steps_single_fall[OF assms(1) h assms(4,5,6), of t y0] assms(2,7,8)
    by simp
  ultimately show ?thesis by simp
qed

theorem single_particle_rest_inside_walls_witness:
  "update (source_config\<lparr>num_particles := 1, gravity := 0\<rparr>) [(0, 0)] [(200, 100)] [1]
     = Inr ([(0, 0)], [(200, 100)])
   \<and> run_steps (source_config\<lparr>num_particles := 1, gravity := 0\<rparr>) 7 [(0, 0)] [(200, 100)] [1]
     = Inr ([(0, 0)], [(200, 100)])"
proof -
  let ?cfg = "source_config\<lparr>num_particles := 1, gravity := 0\<rparr>"
  have a: "num_particles ?cfg = 1" "gravity ?cfg = 0" "0 < smoothing_radius ?cfg" "0 < (1::real)"
    by (simp_all add: source_config_def)
  have b: "root 3 1 * particle_size ?cfg \<le> 200"
          "200 \<le> width ?cfg - root 3 1 * particle_size ?cfg"
          "root 3 1 * particle_size ?cfg \<le> 100"
          "100 \<le> height ?cfg - root 3 1 * particle_size ?cfg"
    by (simp_all add: source_config_def)
  show ?thesis
    using single_particle_rest_inside_walls[OF a b, of 7] by simp
qed

text \<open>
  Without the condition on the walls the claim fails: a particle at the origin is
  moved to the display radius on both axes by the first step.
\<close>

theorem single_particle_rest_inside_walls_counterexample:
  "update (source_config\<lparr>num_particles := 1, gravity := 0\<rparr>) [(0, 0)] [(0, 0)] [1]
     = Inr ([(0, 0)], [(5, 5)])
   \<and> run_steps (source_config\<lparr>num_particles := 1, gravity := 0\<rparr>) 1 [(0, 0)] [(0, 0)] [1]
     = Inr ([(0, 0)], [(5, 5)])
   \<and> [(5, 5)] \<noteq> [(0, 0 :: real) :: vec]"
proof -
  let ?cfg = "source_config\<lparr>num_particles := 1, gravity := 0\<rparr>"
  have a: "num_particles ?cfg = 1" "smoothing_radius ?cfg \<noteq> 0" "(1::real) \<noteq> 0"
    by (simp_all add: source_config_def)
  have "update ?cfg [(0, 0)] [(0, 0)] [1] = Inr ([(0, 0)], [(5, 5)])"
    using update_single[OF a, of "(0, 0)" "(0, 0)"]
    by (simp add: integrate_particle_def wall_bounce_def Let_def source_config_def)
  moreover from this
  have "run_steps ?cfg 1 [(0, 0)] [(0, 0)] [1] = Inr ([(0, 0)], [(5, 5)])"
    unfolding One_nat_def by (simp only: run_steps.simps sum.case prod.case)
  moreover have "[(5, 5)] \<noteq> [(0, 0 :: real) :: vec]" by simp
  ultimately show ?thesis by blast
qed

text \<open>
  Claim C1. Two particles of mass 1 at rest, 40 apart with radius 30, zero gravity
  and the other constants of the source: \<open>update\<close> gives them the accelerations
  \<open>1/27000\<close> and \<open>- 1/27000\<close> along the line joining them, not zero, because
  \<open>smoothing_derivative\<close> does not vanish beyond the radius.
\<close>

theorem update_far_pair_still_accelerates:
  "update (source_config\<lparr>num_particles := 2, gravity := 0\<rparr>)
     [(0, 0), (0, 0)] [(100, 200), (140, 200)] [1, 1]
     = Inr ([(1 / 27000, 0), (- 1 / 27000, 0)],
            [(100 + 1 / 27000, 200), (140 - 1 / 27000, 200)])
   \<and> smoothing_radius (source_config\<lparr>num_particles := 2, gravity := 0\<rparr>)
       < calculate_distance (100, 200) (140, 200)"
proof -
  let ?cfg = "source_config\<lparr>num_particles := 2, gravity := 0\<rparr>"
  let ?pred = "[(100, 200), (140, 200 :: real) :: vec]"
  have pp: "predicted_positions ?cfg [(0, 0), (0, 0)] ?pred = Inr ?pred"
    by (simp add: predicted_positions_def source_config_def upt_0_2)
  have n: "[0..<num_particles ?cfg] = [0, 1]"
    by (simp add: source_config_def upt_0_2)
  have p0: "calculate_pressure ?cfg (100, 200) ?pred [1, 1] = Inr (1 / 15)"
    by (simp add: calculate_pressure_def upt_0_2 smoothing_function_def Let_def
          calculate_distance_same_y source_config_def)
  have p1: "calculate_pressure ?cfg (140, 200) ?pred [1, 1] = Inr (1 / 15)"
    by (simp add: calculate_pressure_def upt_0_2 smoothing_function_def Let_def
          calculate_distance_same_y source_config_def)
  have a0: "acceleration_of ?cfg ?pred [1, 1] 0 = Inr (1 / 27000, 0)"
    using p0 by (simp add: acceleration_of_def upt_0_2 smoothing_derivative_def Let_def
          calculate_distance_same_y source_config_def)
  have a1: "acceleration_of ?cfg ?pred [1, 1] 1 = Inr (- 1 / 27000, 0)"
    using p1 by (simp add: acceleration_of_def upt_0_2 smoothing_derivative_def Let_def
          calculate_distance_same_y source_config_def)
  have al: "accelerations_loop ?cfg ?pred [1, 1] [0..<num_particles ?cfg]
              = Inr [(1 / 27000, 0), (- 1 / 27000, 0)]"
    unfolding n using a0 a1 by simp
  have il: "integrate_loop ?cfg [(0, 0), (0, 0)] ?pred [1, 1]
              [(1 / 27000, 0), (- 1 / 27000, 0)] [0..<num_particles ?cfg]
     = Inr ([(1 / 27000, 0), (- 1 / 27000, 0)],
            [(100 + 1 / 27000, 200), (140 - 1 / 27000, 200)])"
    unfolding n
    by (simp add: integrate_particle_def wall_bounce_def Let_def source_config_def)
  have "update ?cfg [(0, 0), (0, 0)] ?pred [1, 1]
     = Inr ([(1 / 27000, 0), (- 1 / 27000, 0)],
            [(100 + 1 / 27000, 200), (140 - 1 / 27000, 200)])"
    by (simp only: update_def pp al il sum.case)
  moreover have "smoothing_radius ?cfg < calculate_distance (100, 200) (140, 200)"
    by (simp add: calculate_distance_same_y source_config_def)
  ultimately show ?thesis by (rule conjI)
qed

lemma lessThan_2_minus: "{..<2::nat} - {0} = {Suc 0}" "{..<2::nat} - {Suc 0} = {0}"
  by auto

theorem update_accelerations_from_snapshot_witness:
  "accelerations_loop (source_config\<lparr>num_particles := 2, gravity := 0\<rparr>)
     [(0, 0), (10, 0)] [1, 1] [0..<2]
     = Inr [(11 / 236250, 0), (- 11 / 236250, 0)]
   \<and> update (source_config\<lparr>num_particles := 2, gravity := 0\<rparr>)
       [(0, 0), (0, 0)] [(0, 0), (10, 0)] [1, 1]
     = integrate_loop (source_config\<lparr>num_particles := 2, gravity := 0\<rparr>)
         [(0, 0), (0, 0)] [(0, 0), (10, 0)] [1, 1]
         [(11 / 236250, 0), (- 11 / 236250, 0)] [0..<2]"
proof -
  let ?cfg = "source_config\<lparr>num_particles := 2, gravity := 0\<rparr>"
  let ?P = "[(0, 0), (10, 0 :: real) :: vec]"
  have n: "num_particles ?cfg = 2" by (simp add: source_config_def)
  have pp: "predicted_positions ?cfg [(0, 0), (0, 0)] ?P = Inr ?P"
    by (simp add: predicted_positions_def source_config_def upt_0_2)
  have m: "num_particles ?cfg \<le> length [1, 1 :: real]" by (simp add: n)
  have h: "smoothing_radius ?cfg \<noteq> 0" by (simp add: source_config_def)
  have d: "\<forall>i<num_particles ?cfg. \<forall>j<num_particles ?cfg. i \<noteq> j \<longrightarrow> ?P ! i \<noteq> ?P ! j"
    unfolding n by (simp add: all_less_2)
  have sp: "spec_pressure ?cfg (0, 0) ?P [1, 1] = 7 / 81"
           "spec_pressure ?cfg (10, 0) ?P [1, 1] = 7 / 81"
    by (simp_all add: spec_pressure_def n sum_less_2 spec_kernel_def calculate_distance_same_y
          source_config_def power3_eq_cube)
  have p: "\<forall>i<num_particles ?cfg. spec_pressure ?cfg (?P ! i) ?P [1, 1] \<noteq> 0"
    unfolding n by (simp add: all_less_2 sp)
  have s0: "spec_acceleration ?cfg ?P [1, 1] 0 = (11 / 236250, 0)"
    by (simp add: spec_acceleration_def n lessThan_2_minus sp spec_force_term_def
          spec_derivative_def calculate_distance_same_y Let_def)
       (simp add: source_config_def)
  have s1: "spec_acceleration ?cfg ?P [1, 1] 1 = (- 11 / 236250, 0)"
    by (simp add: spec_acceleration_def n lessThan_2_minus sp spec_force_term_def
          spec_derivative_def calculate_distance_same_y Let_def)
       (simp add: source_config_def)
  have mp: "map (spec_acceleration ?cfg ?P [1, 1]) [0..<2]
              = [(11 / 236250, 0), (- 11 / 236250, 0)]"
    unfolding upt_0_2 by (simp only: list.map s0 s1)
  from update_accelerations_from_snapshot[OF pp m h d p] show ?thesis
    unfolding n mp by blast
qed

lemma integrate_loop_total:
  assumes "\<forall>i\<in>set idx. i < length V \<and> i < length accs \<and> i < length pred \<and> i < length masses
             \<and> 0 \<le> masses ! i"
  shows "integrate_loop cfg V pred masses accs idx
     = Inr (map (\<lambda>i. (snd (wall_bounce cfg (width cfg) (root 3 (masses ! i) * particle_size cfg)
                           (fst (pred ! i) + (fst (V ! i) + fst (accs ! i)))
                           (fst (V ! i) + fst (accs ! i))),
                      snd (wall_bounce cfg (height cfg) (root 3 (masses ! i) * particle_size cfg)
                           (snd (pred ! i) + (snd (V ! i) + snd (accs ! i)))
                           (snd (V ! i) + snd (accs ! i))))) idx,
            map (\<lambda>i. (fst (wall_bounce cfg (width cfg) (root 3 (masses ! i) * particle_size cfg)
                           (fst (pred ! i) + (fst (V ! i) + fst (accs ! i)))
                           (fst (V ! i) + fst (accs ! i))),
                      fst (wall_bounce cfg (height cfg) (root 3 (masses ! i) * particle_size cfg)
                           (snd (pred ! i) + (snd (V ! i) + snd (accs ! i)))
                           (snd (V ! i) + snd (accs ! i))))) idx)"
  using assms
proof (induction idx)
  case Nil
  show ?case by simp
next
  case (Cons i idx)
  have i: "\<not> (length V \<le> i \<or> length accs \<le> i \<or> length pred \<le> i \<or> length masses \<le> i)"
    "\<not> masses ! i < 0"
    using Cons.prems by auto
  have IH: "integrate_loop cfg V pred masses accs idx
     = Inr (map (\<lambda>i. (snd (wall_bounce cfg (width cfg) (root 3 (masses ! i) * particle_size cfg)
                           (fst (pred ! i) + (fst (V ! i) + fst (accs ! i)))
                           (fst (V ! i) + fst (accs ! i))),
                      snd (wall_bounce cfg (height cfg) (root 3 (masses ! i) * particle_size cfg)
                           (snd (pred ! i) + (snd (V ! i) + snd (accs ! i)))
                           (snd (V ! i) + snd (accs ! i))))) idx,
            map (\<lambda>i. (fst (wall_bounce cfg (width cfg) (root 3 (masses ! i) * particle_size cfg)
                           (fst (pred ! i) + (fst (V ! i) + fst (accs ! i)))
                           (fst (V ! i) + fst (accs ! i))),
                      fst (wall_bounce cfg (height cfg) (root 3 (masses ! i) * particle_size cfg)
                           (snd (pred ! i) + (snd (V ! i) + snd (accs ! i)))
                           (snd (V ! i) + snd (accs ! i))))) idx)"
    using Cons by simp
  show ?case
    using i by (simp add: IH integrate_particle_def Let_def split: prod.splits)
qed

lemma wall_bounce_position:
  "fst (wall_bounce cfg extent r p v)
     = (if p < r then r else if p > extent - r then extent - r else p)"
  by (simp add: wall_bounce_def)

lemma wall_bounce_speed:
  "snd (wall_bounce cfg extent r p v)
     = (if p < r then v * - wall_mult cfg
        else if p > extent - r then v * - wall_mult cfg else v)"
  by (simp add: wall_bounce_def)

text \<open>
  Claim C7. Once the accelerations are known and no mass is negative, \<open>update\<close>
  returns, with one entry per particle, and for every particle \<open>i\<close> that entry is
  the old velocity plus its acceleration, and the predicted position plus that new
  velocity, passed once through the wall test of each axis: below the display
  radius \<open>masses[i]\<^sup>1\<^sup>/\<^sup>3 * PARTICLE_SIZE\<close> the coordinate becomes the radius, else
  above the extent minus the radius it becomes that bound, and in both cases the
  velocity of the axis is multiplied by \<open>- WALL_MULT\<close>.
\<close>

theorem update_integrates_then_bounces_once:
  assumes "predicted_positions cfg V P = Inr p'"
    and "accelerations_loop cfg p' masses [0..<num_particles cfg] = Inr accelerations"
    and "num_particles cfg \<le> length masses"
    and "\<forall>i<num_particles cfg. 0 \<le> masses ! i"
  shows "\<exists>V' P'.
           update cfg V P masses = Inr (V', P')
         \<and> length V' = num_particles cfg \<and> length P' = num_particles cfg
         \<and> (\<forall>i<num_particles cfg.
               p' ! i = (fst (P ! i) + fst (V ! i), snd (P ! i) + snd (V ! i))
             \<and> (let displayRadius = root 3 (masses ! i) * particle_size cfg;
                     vx = fst (V ! i) + fst (accelerations ! i);
                     vy = snd (V ! i) + snd (accelerations ! i);
                     px = fst (p' ! i) + vx;
                     py = snd (p' ! i) + vy
                 in P' ! i =
                      (if px < displayRadius then displayRadius
                       else if px > width cfg - displayRadius then width cfg - displayRadius
                       else px,
                       if py < displayRadius then displayRadius
                       else if py > height cfg - displayRadius then height cfg - displayRadius
                       else py)
                  \<and> V' ! i =
                      (if px < displayRadius then vx * - wall_mult cfg
                       else if px > width cfg - displayRadius then vx * - wall_mult cfg
                       else vx,
                       if py < displayRadius then vy * - wall_mult cfg
                       else if py > height cfg - displayRadius then vy * - wall_mult cfg
                       else vy)))"
proof -
  let ?n = "num_particles cfg"
  have len: "length p' = ?n" "?n \<le> length V"
    using predicted_positions_length[OF assms(1)] by simp_all
  have la: "length accelerations = ?n"
    using accelerations_loop_length[OF assms(2)] by simp
  have rng: "\<forall>i\<in>set [0..<?n]. i < length V \<and> i < length accelerations \<and> i < length p'
               \<and> i < length masses \<and> 0 \<le> masses ! i"
    using len la assms(3,4) by auto
  note il = integrate_loop_total[OF rng, of cfg]
  have u: "update cfg V P masses = integrate_loop cfg V p' masses accelerations [0..<?n]"
    by (simp add: update_def assms(1,2))
  show ?thesis
    unfolding u il
    using predicted_positions_nth[OF assms(1)]
    by (simp add: wall_bounce_position wall_bounce_speed Let_def)
qed

lemma spec_pressure_positive:
  assumes "0 < smoothing_radius cfg"
    and "\<forall>j<num_particles cfg. 0 < masses ! j"
    and "i < num_particles cfg"
  shows "0 < spec_pressure cfg (pred ! i) pred masses"
proof -
  let ?h = "smoothing_radius cfg"
  let ?f = "\<lambda>k. spec_kernel ?h (calculate_distance (pred ! i) (pred ! k)) * masses ! k"
  have nonneg: "0 \<le> ?f k" if "k \<in> {..<num_particles cfg} - {i}" for k
    using that assms(1,2) by (simp add: spec_kernel_nonneg less_imp_le)
  have "?f i \<le> sum ?f {..<num_particles cfg}"
    using assms(3) nonneg by (intro member_le_sum) simp_all
  moreover have "0 < ?f i"
    using assms by (simp add: calculate_distance_self spec_kernel_zero)
  ultimately show ?thesis
    by (simp add: spec_pressure_def)
qed

lemma acceleration_of_force_zero:
  assumes "predicted_positions cfg V P = Inr pred"
    and "pairwise_force_zero cfg V P masses i"
    and "0 < smoothing_radius cfg"
    and "num_particles cfg \<le> length masses"
    and "\<forall>j<num_particles cfg. 0 < masses ! j"
    and "i < num_particles cfg"
  shows "acceleration_of cfg pred masses i = Inr (0, gravity cfg)"
proof -
  have h: "smoothing_radius cfg \<noteq> 0" using assms(3) by simp
  have len: "num_particles cfg \<le> length pred"
    using predicted_positions_length[OF assms(1)] by simp
  have p: "calculate_pressure cfg (pred ! i) pred masses
             = Inr (spec_pressure cfg (pred ! i) pred masses)"
    by (rule calculate_pressure_spec[OF h len assms(4)])
  have f: "pressure_force_loop cfg pred masses i (spec_pressure cfg (pred ! i) pred masses)
             [0..<num_particles cfg] (0, 0) = Inr (0, 0)"
    using assms(2) by (simp add: pairwise_force_zero_def assms(1) p)
  have ne: "spec_pressure cfg (pred ! i) pred masses \<noteq> 0"
    using spec_pressure_positive[OF assms(3,5,6), of pred] by simp
  have i: "\<not> length pred \<le> i" using len assms(6) by simp
  show ?thesis
    using i ne by (simp add: acceleration_of_def p f)
qed

lemma pairwise_force_zero_mult:
  assumes "predicted_positions cfg V P = Inr pred"
    and "pressure_force_mult cfg = 0"
    and "smoothing_radius cfg \<noteq> 0"
    and "num_particles cfg \<le> length masses"
    and "i < num_particles cfg"
    and "\<forall>j<num_particles cfg. j \<noteq> i \<longrightarrow> pred ! i \<noteq> pred ! j"
  shows "pairwise_force_zero cfg V P masses i"
proof -
  have len: "num_particles cfg \<le> length pred"
    using predicted_positions_length[OF assms(1)] by simp
  have i: "i < length pred" using len assms(5) by simp
  have p: "calculate_pressure cfg (pred ! i) pred masses
             = Inr (spec_pressure cfg (pred ! i) pred masses)"
    by (rule calculate_pressure_spec[OF assms(3) len assms(4)])
  show ?thesis
    using assms(2)
    by (simp add: pairwise_force_zero_def assms(1) p
          pressure_force_loop_spec[OF assms(3) i len assms(4,6)] spec_force_term_def)
qed

lemma update_force_free:
  assumes "predicted_positions cfg V P = Inr pred"
    and "\<forall>i<num_particles cfg. pairwise_force_zero cfg V P masses i"
    and "0 < smoothing_radius cfg"
    and "num_particles cfg \<le> length masses"
    and "\<forall>j<num_particles cfg. 0 < masses ! j"
  shows "accelerations_loop cfg pred masses [0..<num_particles cfg]
           = Inr (map (\<lambda>i. (0, gravity cfg)) [0..<num_particles cfg])"
proof -
  have "\<forall>i\<in>set [0..<num_particles cfg].
          acceleration_of cfg pred masses i = Inr ((\<lambda>i. (0, gravity cfg)) i)"
    using acceleration_of_force_zero[OF assms(1) _ assms(3,4,5)] assms(2) by simp
  then show ?thesis
    by (rule accelerations_loop_map)
qed

lemma upt_0_3: "[0..<3] = [0, 1, 2]"
  by (simp add: numeral_3_eq_3)

lemma all_less_3: "(\<forall>i<(3::nat). P i) \<longleftrightarrow> P 0 \<and> P 1 \<and> P 2"
proof -
  have "\<And>i::nat. i < 3 \<longleftrightarrow> i = 0 \<or> i = 1 \<or> i = 2" by auto
  then show ?thesis by auto
qed

lemma list3_eq:
  assumes "length xs = 3" "xs ! 0 = a" "xs ! 1 = b" "xs ! 2 = c"
  shows "xs = [a, b, c]"
proof (rule nth_equalityI)
  show "length xs = length [a, b, c]" using assms(1) by simp
next
  fix i assume "i < length xs"
  then have "i = 0 \<or> i = 1 \<or> i = 2" using assms(1) by auto
  then show "xs ! i = [a, b, c] ! i" using assms(2-4) by auto
qed

theorem update_integrates_then_bounces_once_witness:
  "update (source_config\<lparr>num_particles := 3, gravity := 0, pressure_force_mult := 0\<rparr>)
     [(- 3, 0), (4, 0), (0, 6)] [(7, 100), (393, 100), (200, 392)] [1, 1, 1]
     = Inr ([(21 / 10, 0), (- 14 / 5, 0), (0, - 21 / 5)],
            [(5, 100), (395, 100), (200, 395)])"
proof -
  let ?cfg = "source_config\<lparr>num_particles := 3, gravity := 0, pressure_force_mult := 0\<rparr>"
  let ?V = "[(- 3, 0), (4, 0), (0, 6 :: real) :: vec]"
  let ?P = "[(7, 100), (393, 100), (200, 392 :: real) :: vec]"
  let ?p = "[(4, 100), (397, 100), (200, 398 :: real) :: vec]"
  let ?M = "[1, 1, 1 :: real]"
  have n: "num_particles ?cfg = 3" by (simp add: source_config_def)
  have pp: "predicted_positions ?cfg ?V ?P = Inr ?p"
    by (simp add: predicted_positions_def n upt_0_3)
  have m: "num_particles ?cfg \<le> length ?M" by (simp add: n)
  have mp: "\<forall>i<num_particles ?cfg. 0 < ?M ! i" unfolding n by (simp add: all_less_3)
  have m0: "\<forall>i<num_particles ?cfg. 0 \<le> ?M ! i" unfolding n by (simp add: all_less_3)
  have h: "0 < smoothing_radius ?cfg" "smoothing_radius ?cfg \<noteq> 0"
    by (simp_all add: source_config_def)
  have z: "pressure_force_mult ?cfg = 0" by (simp add: source_config_def)
  have fz: "\<forall>i<num_particles ?cfg. pairwise_force_zero ?cfg ?V ?P ?M i"
  proof (intro allI impI)
    fix i assume i: "i < num_particles ?cfg"
    have "\<forall>j<num_particles ?cfg. j \<noteq> i \<longrightarrow> ?p ! i \<noteq> ?p ! j"
      using i unfolding n by (auto simp: all_less_3 less_Suc_eq numeral_3_eq_3)
    then show "pairwise_force_zero ?cfg ?V ?P ?M i"
      by (rule pairwise_force_zero_mult[OF pp z h(2) m i])
  qed
  have acc: "accelerations_loop ?cfg ?p ?M [0..<num_particles ?cfg] = Inr [(0, 0), (0, 0), (0, 0)]"
    using update_force_free[OF pp fz h(1) m mp] by (simp add: n upt_0_3 source_config_def)
  have "\<exists>V' P'. update ?cfg ?V ?P ?M = Inr (V', P')
           \<and> length V' = 3 \<and> length P' = 3
           \<and> V' ! 0 = (21 / 10, 0) \<and> V' ! 1 = (- 14 / 5, 0) \<and> V' ! 2 = (0, - 21 / 5)
           \<and> P' ! 0 = (5, 100) \<and> P' ! 1 = (395, 100) \<and> P' ! 2 = (200, 395)"
    using update_integrates_then_bounces_once[OF pp acc m m0] unfolding n
    by (simp add: all_less_3 Let_def source_config_def) blast
  then obtain V' P' where
    u: "update ?cfg ?V ?P ?M = Inr (V', P')"
    and v: "length V' = 3" "V' ! 0 = (21 / 10, 0)" "V' ! 1 = (- 14 / 5, 0)" "V' ! 2 = (0, - 21 / 5)"
    and p: "length P' = 3" "P' ! 0 = (5, 100)" "P' ! 1 = (395, 100)" "P' ! 2 = (200, 395)"
    by blast
  have "V' = [(21 / 10, 0), (- 14 / 5, 0), (0, - 21 / 5)]"
    by (rule list3_eq[OF v])
  moreover have "P' = [(5, 100), (395, 100), (200, 395)]"
    by (rule list3_eq[OF p])
  ultimately show ?thesis using u by simp
qed




































end
